theory Spec2Isabelle
  imports Main
begin

section \<open>Records and the catalog\<close>

text \<open>
  A record of the remote listing is a JavaScript object of which the program reads the
  field \<open>appid\<close> only. Identifiers are JavaScript numbers holding integers; they are
  modelled as unbounded integers. The catalog is the array of identifiers kept in
  \<open>games.json\<close>.
\<close>

record app =
  appid :: int

section \<open>mergeApps\<close>

text \<open>
  \<^verbatim>\<open>
  function mergeApps(existingGames, newApps) {
    const existingSet = new Set(existingGames);
    let addedCount = 0;
    for (const app of newApps) {
      if (!existingSet.has(app.appid)) {
        existingGames.push(app.appid);
        existingSet.add(app.appid);
        addedCount++;
      }
    }
    existingGames.sort((a, b) => a - b);
    return { addedCount };
  }
  \<close>
  The three variables the loop updates form the loop state. The array is mutated in
  place, so the model returns the array after the call together with the count.
\<close>

record merge_state =
  existingGames :: "int list"
  existingSet :: "int set"
  addedCount :: nat

fun merge_loop :: "merge_state \<Rightarrow> app list \<Rightarrow> merge_state" where
  "merge_loop s [] = s"
| "merge_loop s (a # rest) =
     merge_loop
       (if appid a \<notin> existingSet s
        then s\<lparr>existingGames := existingGames s @ [appid a],
               existingSet := insert (appid a) (existingSet s),
               addedCount := Suc (addedCount s)\<rparr>
        else s)
       rest"

text \<open>
  \<open>sort((a, b) => a - b)\<close> orders numbers ascending; on integers the outcome is the
  sorted permutation, which is what \<^const>\<open>sort\<close> computes.
\<close>

definition mergeApps :: "int list \<Rightarrow> app list \<Rightarrow> int list \<times> nat" where
  "mergeApps games newApps =
     (let s = merge_loop \<lparr>existingGames = games, existingSet = set games, addedCount = 0\<rparr> newApps
      in (sort (existingGames s), addedCount s))"

section \<open>The remote listing endpoint\<close>

text \<open>
  A request is identified by its query parameters: the ordered name/value pairs the
  program hands to \<open>URLSearchParams\<close>. The values are kept as the program passes
  them (a string, a number or a boolean).
\<close>

datatype pval = PStr string | PNum int | PBool bool

type_synonym params = "(string \<times> pval) list"

text \<open>
  The object \<open>data.response\<close> of a reply. Each of the three fields the program reads may
  be absent. \<open>have_more_results\<close> is a boolean and \<open>last_appid\<close> an integer when present.
\<close>

record response_data =
  apps :: "app list option"
  have_more_results :: "bool option"
  last_appid :: "int option"

text \<open>
  What \<open>await fetch(url)\<close> and \<open>await response.json()\<close> can give: the promise of
  \<open>fetch\<close> rejects (transport error), or there is a response with its \<open>ok\<close> flag and
  status; its body either is not JSON (\<open>response.json()\<close> rejects) or parses to a value
  whose field \<open>response\<close> is an object or is missing.
\<close>

datatype body = Unparsable | Parsed "response_data option"

datatype reply = NetworkFailure | Response bool nat body

datatype error =
    NetworkError
  | HttpError nat
  | JsonSyntaxError
  | TypeError
  | MissingApiKey
  | ENOENT

text \<open>The endpoint is the environment: a state machine answering each request.\<close>

type_synonym 's endpoint = "'s \<Rightarrow> params \<Rightarrow> reply \<times> 's"

section \<open>fetchAllApps\<close>

text \<open>
  \<^verbatim>\<open>
  const params = new URLSearchParams({
    key: API_KEY, max_results: 50000, include_dlc: false,
    include_software: false, include_videos: false, include_hardware: false });
  if (lastAppId > 0) { params.append('last_appid', lastAppId); }
  if (ifModifiedSince > 0) { params.append('if_modified_since', ifModifiedSince); }
  \<close>
\<close>

definition request_params :: "string \<Rightarrow> int \<Rightarrow> int \<Rightarrow> params" where
  "request_params key cursor since =
     [(''key'', PStr key), (''max_results'', PNum 50000), (''include_dlc'', PBool False),
      (''include_software'', PBool False), (''include_videos'', PBool False),
      (''include_hardware'', PBool False)]
     @ (if cursor > 0 then [(''last_appid'', PNum cursor)] else [])
     @ (if since > 0 then [(''if_modified_since'', PNum since)] else [])"

definition has_param :: "string \<Rightarrow> params \<Rightarrow> bool" where
  "has_param name q = (map_of q name \<noteq> None)"

text \<open>
  The variables of the loop, the state of the endpoint, and the requests issued so far
  with their replies. Console output and the one-second pause between pages are not
  part of the model.
\<close>

record 's fetch_state =
  allApps :: "app list"
  lastAppId :: int
  pageCount :: nat
  hasMore :: bool
  server :: 's
  exchanges :: "(params \<times> reply) list"

text \<open>
  One pass through the body of \<open>while (hasMore)\<close>. Every \<open>throw\<close> inside the
  \<open>try\<close> is caught, logged and thrown again, so it leaves the function: the result is
  \<open>Inl\<close> with the error and the state at that moment.
  \<^verbatim>\<open>
  const response = await fetch(url);
  if (!response.ok) { throw new Error(`HTTP error! status: ${response.status}`); }
  const data = await response.json();
  const responseData = data.response;
  if (responseData.apps && responseData.apps.length > 0) {
    allApps.push(...responseData.apps);
  }
  hasMore = responseData.have_more_results || false;
  lastAppId = responseData.last_appid || 0;
  \<close>
\<close>

definition fetch_page ::
  "'s endpoint \<Rightarrow> string \<Rightarrow> int \<Rightarrow> 's fetch_state \<Rightarrow> (error \<times> 's fetch_state) + 's fetch_state"
where
  "fetch_page ep key since st =
     (let st1 = st\<lparr>pageCount := pageCount st + 1\<rparr>;
          q = request_params key (lastAppId st1) since;
          (r, sv) = ep (server st1) q;
          st2 = st1\<lparr>server := sv, exchanges := exchanges st1 @ [(q, r)]\<rparr>
      in case r of
           NetworkFailure \<Rightarrow> Inl (NetworkError, st2)
         | Response ok code b \<Rightarrow>
             if \<not> ok then Inl (HttpError code, st2)
             else (case b of
                     Unparsable \<Rightarrow> Inl (JsonSyntaxError, st2)
                   | Parsed None \<Rightarrow> Inl (TypeError, st2)
                   | Parsed (Some responseData) \<Rightarrow>
                       Inr (st2\<lparr>allApps :=
                                  (case apps responseData of
                                     None \<Rightarrow> allApps st2
                                   | Some xs \<Rightarrow>
                                       if length xs > 0 then allApps st2 @ xs else allApps st2),
                                hasMore :=
                                  (case have_more_results responseData of
                                     None \<Rightarrow> False | Some m \<Rightarrow> m),
                                lastAppId :=
                                  (case last_appid responseData of
                                     None \<Rightarrow> 0 | Some c \<Rightarrow> c)\<rparr>)))"

text \<open>
  The loop has no bound on the number of pages: with an endpoint that always reports
  more results it never returns, which is the value \<open>None\<close>.
\<close>

partial_function (option) fetch_loop ::
  "'s endpoint \<Rightarrow> string \<Rightarrow> int \<Rightarrow> 's fetch_state \<Rightarrow> ((error + app list) \<times> 's fetch_state) option"
where
  "fetch_loop ep key since st =
     (if hasMore st then
        (case fetch_page ep key since st of
           Inl (e, st') \<Rightarrow> Some (Inl e, st')
         | Inr st' \<Rightarrow> fetch_loop ep key since st')
      else Some (Inr (allApps st), st))"

text \<open>The state on entry to the loop, for an endpoint in state \<open>sv\<close>.\<close>

definition fetch_init :: "'s \<Rightarrow> 's fetch_state" where
  "fetch_init sv =
     \<lparr>allApps = [], lastAppId = 0, pageCount = 0, hasMore = True, server = sv, exchanges = []\<rparr>"

text \<open>
  The result is the error thrown or the accumulated records, with the final state of the
  loop (which holds the requests issued and the state of the endpoint).
\<close>

definition fetchAllApps ::
  "'s endpoint \<Rightarrow> string \<Rightarrow> int \<Rightarrow> 's \<Rightarrow> ((error + app list) \<times> 's fetch_state) option"
where
  "fetchAllApps ep key ifModifiedSince sv = fetch_loop ep key ifModifiedSince (fetch_init sv)"

text \<open>
  The first \<open>n\<close> passes of the same loop: the state reached after at most \<open>n\<close> requests.
  It is defined for every run, also one that never returns, and serves to speak about the
  requests such a run issues.
\<close>

fun fetch_steps :: "'s endpoint \<Rightarrow> string \<Rightarrow> int \<Rightarrow> nat \<Rightarrow> 's fetch_state \<Rightarrow> 's fetch_state" where
  "fetch_steps ep key since 0 st = st"
| "fetch_steps ep key since (Suc n) st =
     (if hasMore st then
        (case fetch_page ep key since st of
           Inl (e, st') \<Rightarrow> st'
         | Inr st' \<Rightarrow> fetch_steps ep key since n st')
      else st)"

section \<open>Reading a trace of requests and replies\<close>

text \<open>
  What a reply means to the loop: the error it raises, if any, and the cursor
  \<open>responseData.last_appid || 0\<close> it leaves in \<open>lastAppId\<close>. The order of the checks
  is the order of the source: the \<open>ok\<close> flag first, then the body.
\<close>

fun failure_of :: "reply \<Rightarrow> error option" where
  "failure_of NetworkFailure = Some NetworkError"
| "failure_of (Response ok code b) =
     (if \<not> ok then Some (HttpError code)
      else (case b of
              Unparsable \<Rightarrow> Some JsonSyntaxError
            | Parsed None \<Rightarrow> Some TypeError
            | Parsed (Some p) \<Rightarrow> None))"

definition reply_cursor :: "reply \<Rightarrow> int" where
  "reply_cursor r =
     (case r of
        Response ok code (Parsed (Some p)) \<Rightarrow> (case last_appid p of None \<Rightarrow> 0 | Some c \<Rightarrow> c)
      | _ \<Rightarrow> 0)"

text \<open>
  The cursor taken from the response before request \<open>i\<close> of a trace; before the first
  request it is the initial \<open>lastAppId = 0\<close>.
\<close>

definition prior_cursor :: "(params \<times> reply) list \<Rightarrow> nat \<Rightarrow> int" where
  "prior_cursor xs i = (if i = 0 then 0 else reply_cursor (snd (xs ! (i - 1))))"

text \<open>
  A scripted endpoint for the pagination properties: it answers the successive requests
  with the successive replies of a list, whatever the request, and fails when the list
  is used up. A page is served as a successful response carrying it.
\<close>

fun scripted :: "reply list endpoint" where
  "scripted [] q = (NetworkFailure, [])"
| "scripted (r # rs) q = (r, rs)"

definition page_reply :: "response_data \<Rightarrow> reply" where
  "page_reply p = Response True 200 (Parsed (Some p))"

definition page_apps :: "response_data \<Rightarrow> app list" where
  "page_apps p = (case apps p of None \<Rightarrow> [] | Some xs \<Rightarrow> xs)"

section \<open>Files, clock and library functions\<close>

text \<open>
  The file system maps a path to the content of the file there and knows which
  directories exist; \<open>fs_log\<close> records every write and copy in the order performed. File
  contents are byte strings and paths are POSIX paths. \<open>Date.now()\<close> and \<open>new Date()\<close>
  read a clock that gives the \<open>n\<close>-th reading (milliseconds since the epoch) as
  \<open>clock n\<close>.
\<close>

datatype fs_op = WriteFile string string | CopyFile string string

record 's world =
  files :: "string \<rightharpoonup> string"
  dirs :: "string set"
  fs_log :: "fs_op list"
  clock :: "nat \<Rightarrow> nat"
  clock_reads :: nat
  remote :: 's

definition date_now :: "'s world \<Rightarrow> nat \<times> 's world" where
  "date_now w = (clock w (clock_reads w), w\<lparr>clock_reads := Suc (clock_reads w)\<rparr>)"

text \<open>The directory part of a path: what stands before its last separator.\<close>

definition parent_dir :: "string \<Rightarrow> string" where
  "parent_dir path = rev (drop 1 (dropWhile (\<lambda>c. c \<noteq> CHR ''/'') (rev path)))"

text \<open>
  The program writes only the two files below, whose directory is the parent of the
  directory of the script and therefore exists; these writes are taken to succeed.
\<close>

definition writeFileSync :: "string \<Rightarrow> string \<Rightarrow> 's world \<Rightarrow> 's world" where
  "writeFileSync path content w =
     w\<lparr>files := (files w)(path \<mapsto> content), fs_log := fs_log w @ [WriteFile path content]\<rparr>"

text \<open>
  \<open>fs.copyFileSync\<close> throws \<open>ENOENT\<close> when the source is missing or when the directory
  of the destination does not exist.
\<close>

definition copyFileSync :: "string \<Rightarrow> string \<Rightarrow> 's world \<Rightarrow> error + 's world" where
  "copyFileSync src dst w =
     (case files w src of
        None \<Rightarrow> Inl ENOENT
      | Some content \<Rightarrow>
          if parent_dir dst \<in> dirs w
          then Inr (w\<lparr>files := (files w)(dst \<mapsto> content),
                       fs_log := fs_log w @ [CopyFile src dst]\<rparr>)
          else Inl ENOENT)"

text \<open>
  \<^verbatim>\<open>
  const GAMES_FILE = path.join(__dirname, '..', 'games.json');
  const METADATA_FILE = path.join(__dirname, '..', 'metadata.json');
  \<close>
  The parameter \<open>root\<close> is the absolute path \<open>path.join(__dirname, '..')\<close> of the
  directory that holds both files (without a separator at its end).
\<close>

definition GAMES_FILE :: "string \<Rightarrow> string" where
  "GAMES_FILE root = root @ ''/games.json''"

definition METADATA_FILE :: "string \<Rightarrow> string" where
  "METADATA_FILE root = root @ ''/metadata.json''"

record run_stats =
  appsReceived :: nat
  gamesAdded :: nat

record metadata =
  lastFetchTimestamp :: int
  lastUpdateDate :: "string option"
  totalGames :: int
  lastRunStats :: "run_stats option"

text \<open>
  The outcome of \<open>JSON.parse\<close> on the catalog file, when it does not throw: an array (of
  integers, as the file is written by this program) or another JSON value.
\<close>

datatype parsed = JArray "int list" | JOther

text \<open>
  The functions of the JavaScript library the program calls. \<open>JSON.parse\<close> returns
  \<open>None\<close> where it throws a \<open>SyntaxError\<close>; the metadata file, when it parses, is
  taken to hold an object of the shape the program writes.
\<close>

record js_lib =
  JSON_parse_games :: "string \<Rightarrow> parsed option"
  JSON_parse_metadata :: "string \<Rightarrow> metadata option"
  JSON_stringify_games :: "int list \<Rightarrow> string"
  JSON_stringify_metadata :: "metadata \<Rightarrow> string"
  toISOString :: "nat \<Rightarrow> string"
  trim :: "string \<Rightarrow> string"

text \<open>
  The first \<open>replace\<close> removes a leading byte order mark (U+FEFF), which is three
  bytes in UTF-8.
\<close>

definition BOM :: string where
  "BOM = [CHR 0xEF, CHR 0xBB, CHR 0xBF]"

definition strip_bom :: "string \<Rightarrow> string" where
  "strip_bom rawData = (if take 3 rawData = BOM then drop 3 rawData else rawData)"

text \<open>\<open>String.prototype.replace\<close> with a string pattern replaces the first occurrence.\<close>

fun replace_first :: "string \<Rightarrow> string \<Rightarrow> string \<Rightarrow> string" where
  "replace_first pat rep [] = (if pat = [] then rep else [])"
| "replace_first pat rep (c # cs) =
     (if take (length pat) (c # cs) = pat then rep @ drop (length pat) (c # cs)
      else c # replace_first pat rep cs)"

text \<open>The decimal digits of a number, as a template literal prints \<open>Date.now()\<close>.\<close>

definition digit :: "nat \<Rightarrow> char" where
  "digit d = ''0123456789'' ! d"

fun show_nat :: "nat \<Rightarrow> string" where
  "show_nat n = (if n < 10 then [digit n] else show_nat (n div 10) @ [digit (n mod 10)])"

declare show_nat.simps [simp del]

text \<open>
  \<open>GAMES_FILE.replace('.json', `.backup.${Date.now()}.json`)\<close>: the replacement is made
  in the whole path, at the first place where \<open>.json\<close> stands.
\<close>

definition backup_name :: "string \<Rightarrow> nat \<Rightarrow> string" where
  "backup_name root now =
     replace_first ''.json'' (''.backup.'' @ show_nat now @ ''.json'') (GAMES_FILE root)"

section \<open>Loading and saving\<close>

text \<open>
  \<^verbatim>\<open>
  function loadGamesData() {
    try {
      if (!fs.existsSync(GAMES_FILE)) { return []; }
      const rawData = fs.readFileSync(GAMES_FILE, 'utf8');
      const cleanData = rawData.replace(<leading U+FEFF>, '');
      if (!cleanData.trim()) { return []; }
      const parsed = JSON.parse(cleanData);
      if (!Array.isArray(parsed)) { return []; }
      return parsed;
    } catch (error) {
      const backupFile = GAMES_FILE.replace('.json', `.backup.${Date.now()}.json`);
      if (fs.existsSync(GAMES_FILE)) { fs.copyFileSync(GAMES_FILE, backupFile); }
      return [];
    }
  }
  \<close>
\<close>

text \<open>
  The function returns the catalog, or throws: an exception raised inside the \<open>catch\<close>
  block (by \<open>copyFileSync\<close>) leaves the function.
\<close>

definition loadGamesData ::
  "js_lib \<Rightarrow> string \<Rightarrow> 's world \<Rightarrow> (error \<times> 's world) + (int list \<times> 's world)"
where
  "loadGamesData lib root w =
     (case files w (GAMES_FILE root) of
        None \<Rightarrow> Inr ([], w)
      | Some rawData \<Rightarrow>
          (let cleanData = strip_bom rawData in
           if trim lib cleanData = [] then Inr ([], w)
           else (case JSON_parse_games lib cleanData of
                   Some (JArray xs) \<Rightarrow> Inr (xs, w)
                 | Some JOther \<Rightarrow> Inr ([], w)
                 | None \<Rightarrow>
                     (let (now, w1) = date_now w;
                          backupFile = backup_name root now
                      in if files w1 (GAMES_FILE root) \<noteq> None
                         then (case copyFileSync (GAMES_FILE root) backupFile w1 of
                                 Inl e \<Rightarrow> Inl (e, w1)
                               | Inr w2 \<Rightarrow> Inr ([], w2))
                         else Inr ([], w1)))))"

text \<open>
  \<^verbatim>\<open>
  function loadMetadata() {
    if (fs.existsSync(METADATA_FILE)) {
      const data = fs.readFileSync(METADATA_FILE, 'utf8');
      return JSON.parse(data);
    }
    return { lastFetchTimestamp: 0, lastUpdateDate: null, totalGames: 0 };
  }
  \<close>
\<close>

definition loadMetadata :: "js_lib \<Rightarrow> string \<Rightarrow> 's world \<Rightarrow> error + metadata" where
  "loadMetadata lib root w =
     (case files w (METADATA_FILE root) of
        Some content \<Rightarrow>
          (case JSON_parse_metadata lib content of
             None \<Rightarrow> Inl JsonSyntaxError
           | Some m \<Rightarrow> Inr m)
      | None \<Rightarrow>
          Inr \<lparr>lastFetchTimestamp = 0, lastUpdateDate = None, totalGames = 0,
               lastRunStats = None\<rparr>)"

definition saveGamesData :: "js_lib \<Rightarrow> string \<Rightarrow> int list \<Rightarrow> 's world \<Rightarrow> 's world" where
  "saveGamesData lib root games w =
     writeFileSync (GAMES_FILE root) (JSON_stringify_games lib games) w"

definition saveMetadata :: "js_lib \<Rightarrow> string \<Rightarrow> metadata \<Rightarrow> 's world \<Rightarrow> 's world" where
  "saveMetadata lib root m w =
     writeFileSync (METADATA_FILE root) (JSON_stringify_metadata lib m) w"

section \<open>updateGamesDatabase\<close>

text \<open>
  A run ends in one of two ways: it reaches the end of the \<open>try\<close> block, with the
  catalog and the metadata it holds in memory, or an exception reaches the \<open>catch\<close>,
  which calls \<open>process.exit(1)\<close>. A run whose fetch never returns has no outcome.
\<close>

datatype 's outcome =
    Completed "int list" metadata "'s world"
  | Failed error "'s world"

fun exit_code :: "'s outcome \<Rightarrow> nat" where
  "exit_code (Completed games m w) = 0"
| "exit_code (Failed e w) = 1"

fun final_world :: "'s outcome \<Rightarrow> 's world" where
  "final_world (Completed games m w) = w"
| "final_world (Failed e w) = w"

text \<open>
  \<^verbatim>\<open>
  console.log(`Start time: ${new Date().toISOString()}`);
  try {
    const games = loadGamesData();
    const metadata = loadMetadata();
    const newApps = await fetchAllApps(metadata.lastFetchTimestamp);
    if (newApps.length === 0) {
      console.log('No new or updated apps found.');
    } else {
      const { addedCount } = mergeApps(games, newApps);
      saveGamesData(games);
      metadata.lastFetchTimestamp = Math.floor(Date.now() / 1000);
      metadata.lastUpdateDate = new Date().toISOString();
      metadata.totalGames = games.length;
      metadata.lastRunStats = { appsReceived: newApps.length, gamesAdded: addedCount };
      saveMetadata(metadata);
    }
    console.log(`End time: ${new Date().toISOString()}`);
  } catch (error) { process.exit(1); }
  \<close>
\<close>

definition finish_update ::
  "js_lib \<Rightarrow> string \<Rightarrow> int list \<Rightarrow> metadata \<Rightarrow> app list \<Rightarrow> 's world \<Rightarrow> 's outcome"
where
  "finish_update lib root games m newApps w =
     (if length newApps = 0 then
        (let (t_end, w1) = date_now w in Completed games m w1)
      else
        (let (merged, added) = mergeApps games newApps;
             w1 = saveGamesData lib root merged w;
             (t_fetch, w2) = date_now w1;
             (t_update, w3) = date_now w2;
             m' = m\<lparr>lastFetchTimestamp := int (t_fetch div 1000),
                     lastUpdateDate := Some (toISOString lib t_update),
                     totalGames := int (length merged),
                     lastRunStats :=
                       Some \<lparr>appsReceived = length newApps, gamesAdded = added\<rparr>\<rparr>;
             w4 = saveMetadata lib root m' w3;
             (t_end, w5) = date_now w4
         in Completed merged m' w5))"

definition updateGamesDatabase ::
  "js_lib \<Rightarrow> string \<Rightarrow> 's endpoint \<Rightarrow> string \<Rightarrow> 's world \<Rightarrow> 's outcome option"
where
  "updateGamesDatabase lib root ep key w0 =
     (let (t_start, w1) = date_now w0
      in case loadGamesData lib root w1 of
           Inl (e, w2) \<Rightarrow> Some (Failed e w2)
         | Inr (games, w2) \<Rightarrow>
             (case loadMetadata lib root w2 of
                Inl e \<Rightarrow> Some (Failed e w2)
              | Inr m \<Rightarrow>
                  (case fetchAllApps ep key (lastFetchTimestamp m) (remote w2) of
                     None \<Rightarrow> None
                   | Some (Inl e, st) \<Rightarrow> Some (Failed e (w2\<lparr>remote := server st\<rparr>))
                   | Some (Inr newApps, st) \<Rightarrow>
                       Some (finish_update lib root games m newApps
                               (w2\<lparr>remote := server st\<rparr>)))))"

text \<open>
  \<^verbatim>\<open>
  const API_KEY = process.env.STEAM_API_KEY;
  if (!API_KEY) { process.exit(1); }
  ...
  updateGamesDatabase();
  \<close>
\<close>

definition main ::
  "js_lib \<Rightarrow> string \<Rightarrow> 's endpoint \<Rightarrow> string option \<Rightarrow> 's world \<Rightarrow> 's outcome option"
where
  "main lib root ep env_key w =
     (case env_key of
        None \<Rightarrow> Some (Failed MissingApiKey w)
      | Some key \<Rightarrow>
          if key = [] then Some (Failed MissingApiKey w)
          else updateGamesDatabase lib root ep key w)"

section \<open>Reading the file-system log\<close>

text \<open>Whether an operation of the log puts content at a path.\<close>

fun writes_to :: "string \<Rightarrow> fs_op \<Rightarrow> bool" where
  "writes_to path (WriteFile p content) = (p = path)"
| "writes_to path (CopyFile src dst) = (dst = path)"

text \<open>The world in which \<open>loadGamesData\<close> ends, whether it returns or throws.\<close>

fun world_after :: "(error \<times> 's world) + (int list \<times> 's world) \<Rightarrow> 's world" where
  "world_after (Inl (e, w)) = w"
| "world_after (Inr (games, w)) = w"

section \<open>A small environment for the examples\<close>

text \<open>
  Library functions that cover the two file contents used in the examples: the parser
  knows \<open>[5, 10]\<close> and \<open>{}\<close> and throws on everything else, \<open>trim\<close> removes blanks
  and line ends, and the clock starts at a fixed instant and advances by one millisecond
  per reading. The sample world has the directory \<open>root\<close> and in it at most the catalog
  file.
\<close>

definition sample_trim :: "string \<Rightarrow> string" where
  "sample_trim s =
     rev (dropWhile (\<lambda>c. c \<in> set [CHR '' '', CHR 0x09, CHR 0x0A, CHR 0x0D])
       (rev (dropWhile (\<lambda>c. c \<in> set [CHR '' '', CHR 0x09, CHR 0x0A, CHR 0x0D]) s)))"

definition sample_lib :: js_lib where
  "sample_lib =
     \<lparr>JSON_parse_games =
        (\<lambda>s. if s = ''[5, 10]'' then Some (JArray [5, 10])
             else if s = ''{}'' then Some JOther else None),
      JSON_parse_metadata = (\<lambda>s. None),
      JSON_stringify_games = (\<lambda>games. if games = [5, 10] then ''[5, 10]'' else ''[...]''),
      JSON_stringify_metadata = (\<lambda>m. ''{...}''),
      toISOString = (\<lambda>t. ''T'' @ show_nat t),
      trim = sample_trim\<rparr>"

definition sample_world :: "string \<Rightarrow> string option \<Rightarrow> reply list \<Rightarrow> reply list world" where
  "sample_world root catalog script =
     \<lparr>files = Map.empty(GAMES_FILE root := catalog), dirs = {root}, fs_log = [],
      clock = (\<lambda>n. 1730000000000 + n), clock_reads = 0, remote = script\<rparr>"

section \<open>Invariants used in the proofs\<close>

text \<open>
  Request \<open>i\<close> of a trace is the one the loop builds from the cursor of the response
  before it; the invariant of the loop adds that \<open>lastAppId\<close> is the cursor of the last
  response.
\<close>

definition request_ok :: "string \<Rightarrow> int \<Rightarrow> (params \<times> reply) list \<Rightarrow> nat \<Rightarrow> bool" where
  "request_ok key since xs i = (fst (xs ! i) = request_params key (prior_cursor xs i) since)"

definition trace_inv :: "string \<Rightarrow> int \<Rightarrow> 's fetch_state \<Rightarrow> bool" where
  "trace_inv key since st =
     ((\<forall>i < length (exchanges st). request_ok key since (exchanges st) i) \<and>
      lastAppId st = prior_cursor (exchanges st) (length (exchanges st)))"

section \<open>Properties of the merge loop\<close>

lemma merge_loop_set_inv:
  "existingSet s = set (existingGames s) \<Longrightarrow>
   existingSet (merge_loop s xs) = set (existingGames (merge_loop s xs))"
  by (induction xs arbitrary: s) auto

lemma merge_loop_ids:
  "existingSet s = set (existingGames s) \<Longrightarrow>
   set (existingGames (merge_loop s xs)) = set (existingGames s) \<union> appid ` set xs"
  by (induction xs arbitrary: s) auto

lemma merge_loop_length:
  "length (existingGames (merge_loop s xs)) + addedCount s =
   length (existingGames s) + addedCount (merge_loop s xs)"
proof (induction xs arbitrary: s)
  case Nil
  show ?case by simp
next
  case (Cons a xs)
  show ?case
  proof (cases "appid a \<in> existingSet s")
    case True
    then show ?thesis using Cons.IH [of s] by simp
  next
    case False
    let ?s' = "s\<lparr>existingGames := existingGames s @ [appid a],
                  existingSet := insert (appid a) (existingSet s),
                  addedCount := Suc (addedCount s)\<rparr>"
    from False show ?thesis using Cons.IH [of ?s'] by simp
  qed
qed

lemma merge_loop_distinct:
  "existingSet s = set (existingGames s) \<Longrightarrow> distinct (existingGames s) \<Longrightarrow>
   distinct (existingGames (merge_loop s xs))"
  by (induction xs arbitrary: s) auto

lemma merge_loop_known:
  "appid ` set xs \<subseteq> existingSet s \<Longrightarrow> merge_loop s xs = s"
  by (induction xs arbitrary: s) auto

lemma mergeApps_set:
  "set (fst (mergeApps games newApps)) = set games \<union> appid ` set newApps"
  by (simp add: mergeApps_def Let_def merge_loop_ids)

lemma mergeApps_sorted: "sorted (fst (mergeApps games newApps))"
  by (simp add: mergeApps_def Let_def)

lemma mergeApps_length:
  "length (fst (mergeApps games newApps)) = length games + snd (mergeApps games newApps)"
  using merge_loop_length
    [of "\<lparr>existingGames = games, existingSet = set games, addedCount = 0\<rparr>" newApps]
  by (simp add: mergeApps_def Let_def)

lemma mergeApps_known:
  "sorted games \<Longrightarrow> appid ` set newApps \<subseteq> set games \<Longrightarrow> mergeApps games newApps = (games, 0)"
  by (simp add: mergeApps_def Let_def merge_loop_known sort_key_id_if_sorted)

section \<open>Claims about mergeApps\<close>

text \<open>
  Claim C2, as stated: for every input catalog, also one that already holds duplicates,
  the catalog after the merge has no duplicate identifier. The program builds the set
  from the catalog but never removes an entry from the array, so a duplicate of the input
  stays: the catalog \<open>[5, 5]\<close> merged with no record is \<open>[5, 5]\<close>.
\<close>

theorem merge_keeps_input_duplicates_counterexample:
  "\<not> distinct (fst (mergeApps [5, 5] []))"
  by (simp add: mergeApps_def)

text \<open>
  Claim C2, amended: for every input catalog without duplicate identifiers and every
  sequence of records (with or without repeated identifiers), the catalog after the merge
  has no duplicate identifier.
\<close>

theorem merge_distinct:
  "distinct games \<Longrightarrow> distinct (fst (mergeApps games newApps))"
  by (simp add: mergeApps_def Let_def merge_loop_distinct)

theorem merge_distinct_witness:
  "distinct [5, 10 :: int] \<and>
   distinct (fst (mergeApps [5, 10] [\<lparr>appid = 10\<rparr>, \<lparr>appid = 7\<rparr>, \<lparr>appid = 7\<rparr>]))"
  using merge_distinct [of "[5, 10]" "[\<lparr>appid = 10\<rparr>, \<lparr>appid = 7\<rparr>, \<lparr>appid = 7\<rparr>]"]
  by simp

text \<open>
  Claim C3: for every catalog and every sequence of records, merging the same records a
  second time into the catalog the first merge produced leaves that catalog as it is and
  returns an added count of 0.
\<close>

theorem merge_idempotent:
  "mergeApps (fst (mergeApps games newApps)) newApps = (fst (mergeApps games newApps), 0)"
  by (rule mergeApps_known) (simp_all add: mergeApps_sorted mergeApps_set)

text \<open>
  Claim C4: for every input catalog and every sequence of records, the catalog after the
  merge is sorted ascending by numeric value.
\<close>

theorem merge_sorted:
  "sorted (fst (mergeApps games newApps))"
  by (rule mergeApps_sorted)

text \<open>
  Claim C5: merging the records with identifiers 10, 5, 10 into the empty catalog gives
  the catalog \<open>[5, 10]\<close> and an added count of 2; merging one record with identifier 5
  into the catalog \<open>[5, 10]\<close> gives \<open>[5, 10]\<close> and an added count of 0.
\<close>

theorem merge_examples:
  "mergeApps [] [\<lparr>appid = 10\<rparr>, \<lparr>appid = 5\<rparr>, \<lparr>appid = 10\<rparr>] = ([5, 10], 2) \<and>
   mergeApps [5, 10] [\<lparr>appid = 5\<rparr>] = ([5, 10], 0)"
  by (simp add: mergeApps_def)

text \<open>
  Claim C10: for every input catalog and every sequence of records, the added count is
  the length of the catalog after the merge minus its length before, and the identifiers of
  the merged catalog are those of the input catalog together with those of the records; no
  identifier of the input catalog is lost.
\<close>

theorem merge_count_and_ids:
  "snd (mergeApps games newApps) = length (fst (mergeApps games newApps)) - length games \<and>
   length games \<le> length (fst (mergeApps games newApps)) \<and>
   set (fst (mergeApps games newApps)) = set games \<union> appid ` set newApps \<and>
   set games \<subseteq> set (fst (mergeApps games newApps))"
  by (simp add: mergeApps_length mergeApps_set)

section \<open>Properties of the fetch loop\<close>

lemma fetch_page_ok:
  assumes "ep (server st) (request_params key (lastAppId st) since) =
             (Response True code (Parsed (Some p)), sv)"
  shows "fetch_page ep key since st =
     Inr (st\<lparr>pageCount := pageCount st + 1, server := sv,
             exchanges := exchanges st @
               [(request_params key (lastAppId st) since, Response True code (Parsed (Some p)))],
             allApps := allApps st @ page_apps p,
             hasMore := (have_more_results p = Some True),
             lastAppId := (case last_appid p of None \<Rightarrow> 0 | Some c \<Rightarrow> c)\<rparr>)"
  using assms by (auto simp: fetch_page_def page_apps_def Let_def split: option.splits)

lemma fetch_page_failure:
  assumes "ep (server st) (request_params key (lastAppId st) since) = (r, sv)"
    and "failure_of r = Some e"
  shows "fetch_page ep key since st =
     Inl (e, st\<lparr>pageCount := pageCount st + 1, server := sv,
                exchanges := exchanges st @ [(request_params key (lastAppId st) since, r)]\<rparr>)"
  using assms
  by (auto simp: fetch_page_def Let_def split: reply.splits body.splits option.splits if_splits)

lemma fetch_loop_stop:
  "\<not> hasMore st \<Longrightarrow> fetch_loop ep key since st = Some (Inr (allApps st), st)"
  by (subst fetch_loop.simps) simp

lemma fetch_loop_step:
  "hasMore st \<Longrightarrow> fetch_page ep key since st = Inr st' \<Longrightarrow>
   fetch_loop ep key since st = fetch_loop ep key since st'"
  by (subst fetch_loop.simps) simp

lemma fetch_loop_fail:
  "hasMore st \<Longrightarrow> fetch_page ep key since st = Inl (e, st') \<Longrightarrow>
   fetch_loop ep key since st = Some (Inl e, st')"
  by (subst fetch_loop.simps) simp

lemma fetch_loop_pages:
  assumes "pages \<noteq> []"
    and "\<forall>p \<in> set (butlast pages). have_more_results p = Some True"
    and "have_more_results (last pages) \<noteq> Some True"
    and "hasMore st"
    and "server st = map page_reply pages @ rest"
  shows "\<exists>st'. fetch_loop scripted key since st =
            Some (Inr (allApps st @ concat (map page_apps pages)), st') \<and>
          server st' = rest \<and>
          pageCount st' = pageCount st + length pages \<and>
          length (exchanges st') = length (exchanges st) + length pages \<and>
          map snd (exchanges st') = map snd (exchanges st) @ map page_reply pages"
  using assms
proof (induction pages arbitrary: st)
  case Nil
  then show ?case by simp
next
  case (Cons p ps)
  let ?q = "request_params key (lastAppId st) since"
  let ?st' = "st\<lparr>pageCount := pageCount st + 1, server := map page_reply ps @ rest,
             exchanges := exchanges st @ [(?q, Response True 200 (Parsed (Some p)))],
             allApps := allApps st @ page_apps p,
             hasMore := (have_more_results p = Some True),
             lastAppId := (case last_appid p of None \<Rightarrow> 0 | Some c \<Rightarrow> c)\<rparr>"
  have ep: "scripted (server st) ?q = (Response True 200 (Parsed (Some p)), map page_reply ps @ rest)"
    using Cons.prems(5) by (simp add: page_reply_def)
  have page: "fetch_page scripted key since st = Inr ?st'"
    by (rule fetch_page_ok [where ep = scripted and st = st, OF ep])
  have step: "fetch_loop scripted key since st = fetch_loop scripted key since ?st'"
    by (rule fetch_loop_step [OF Cons.prems(4) page])
  show ?case
  proof (cases "ps = []")
    case True
    with Cons.prems(3) have "\<not> hasMore ?st'" by simp
    then have "fetch_loop scripted key since ?st' = Some (Inr (allApps ?st'), ?st')"
      by (rule fetch_loop_stop)
    with step True show ?thesis by (simp add: page_reply_def)
  next
    case False
    with Cons.prems(2) have more: "hasMore ?st'" by simp
    from False Cons.prems(2) have a: "\<forall>p \<in> set (butlast ps). have_more_results p = Some True"
      by simp
    from False Cons.prems(3) have b: "have_more_results (last ps) \<noteq> Some True" by simp
    have c: "server ?st' = map page_reply ps @ rest" by simp
    from Cons.IH [OF False a b more c] obtain st'' where
      "fetch_loop scripted key since ?st' =
         Some (Inr (allApps ?st' @ concat (map page_apps ps)), st'')"
      "server st'' = rest"
      "pageCount st'' = pageCount ?st' + length ps"
      "length (exchanges st'') = length (exchanges ?st') + length ps"
      "map snd (exchanges st'') = map snd (exchanges ?st') @ map page_reply ps"
      by blast
    with step show ?thesis by (simp add: page_reply_def)
  qed
qed

lemma fetch_loop_is_steps:
  assumes "fetch_loop ep key since st = Some y"
  shows "\<exists>n. snd y = fetch_steps ep key since n st"
proof (rule fetch_loop.raw_induct
    [where P = "\<lambda>ep key since st y. \<exists>n. snd y = fetch_steps ep key since n st", OF _ assms],
    goal_cases)
  case (1 loop ep key since st y)
  show ?case
  proof (cases "hasMore st")
    case False
    with 1(2) have "snd y = fetch_steps ep key since 0 st" by auto
    then show ?thesis by blast
  next
    case True
    show ?thesis
    proof (cases "fetch_page ep key since st")
      case (Inl a)
      with True 1(2) have "snd y = fetch_steps ep key since (Suc 0) st"
        by (cases a) auto
      then show ?thesis by blast
    next
      case (Inr st')
      with True 1(2) have "loop ep key since st' = Some y" by simp
      from 1(1) [OF this] obtain n where "snd y = fetch_steps ep key since n st'" by blast
      with True Inr have "snd y = fetch_steps ep key since (Suc n) st" by simp
      then show ?thesis by blast
    qed
  qed
qed

lemma request_ok_snoc:
  assumes "\<forall>i < length xs. request_ok key since xs i"
    and "q = request_params key (prior_cursor xs (length xs)) since"
  shows "\<forall>i < length (xs @ [(q, r)]). request_ok key since (xs @ [(q, r)]) i"
proof (intro allI impI)
  fix i assume "i < length (xs @ [(q, r)])"
  then consider "i < length xs" | "i = length xs" by fastforce
  then show "request_ok key since (xs @ [(q, r)]) i"
  proof cases
    case 1
    with assms(1) show ?thesis
      by (auto simp: request_ok_def prior_cursor_def nth_append)
  next
    case 2
    with assms(2) show ?thesis
      by (auto simp: request_ok_def prior_cursor_def nth_append)
  qed
qed

lemma fetch_page_exchanges:
  "\<exists>r sv. ep (server st) (request_params key (lastAppId st) since) = (r, sv) \<and>
     exchanges (case fetch_page ep key since st of Inl (e, st') \<Rightarrow> st' | Inr st' \<Rightarrow> st') =
       exchanges st @ [(request_params key (lastAppId st) since, r)] \<and>
     (\<forall>st'. fetch_page ep key since st = Inr st' \<longrightarrow>
        lastAppId st' = reply_cursor r \<and> failure_of r = None) \<and>
     (\<forall>e st'. fetch_page ep key since st = Inl (e, st') \<longrightarrow> failure_of r = Some e)"
  by (cases "ep (server st) (request_params key (lastAppId st) since)")
     (auto simp: fetch_page_def Let_def reply_cursor_def
           split: reply.splits body.splits option.splits)

lemma fetch_page_trace_inv:
  assumes "trace_inv key since st"
  shows "case fetch_page ep key since st of
           Inl (e, st') \<Rightarrow> (\<forall>i < length (exchanges st'). request_ok key since (exchanges st') i)
         | Inr st' \<Rightarrow> trace_inv key since st'"
proof -
  from fetch_page_exchanges [of ep st key since] obtain r sv where
    ex: "exchanges (case fetch_page ep key since st of Inl (e, st') \<Rightarrow> st' | Inr st' \<Rightarrow> st') =
       exchanges st @ [(request_params key (lastAppId st) since, r)]"
    and cur: "\<forall>st'. fetch_page ep key since st = Inr st' \<longrightarrow> lastAppId st' = reply_cursor r"
    by blast
  from assms have ok: "\<forall>i < length (exchanges st @ [(request_params key (lastAppId st) since, r)]).
      request_ok key since (exchanges st @ [(request_params key (lastAppId st) since, r)]) i"
    by (intro request_ok_snoc) (simp_all add: trace_inv_def)
  show ?thesis
  proof (cases "fetch_page ep key since st")
    case (Inl a)
    with ex ok show ?thesis by (cases a) simp
  next
    case (Inr st')
    with ex ok cur show ?thesis by (simp add: trace_inv_def prior_cursor_def)
  qed
qed

lemma fetch_steps_trace:
  "trace_inv key since st \<Longrightarrow>
   \<forall>i < length (exchanges (fetch_steps ep key since n st)).
      request_ok key since (exchanges (fetch_steps ep key since n st)) i"
proof (induction n arbitrary: st)
  case 0
  then show ?case by (simp add: trace_inv_def)
next
  case (Suc n)
  show ?case
  proof (cases "hasMore st")
    case False
    with Suc.prems show ?thesis by (simp add: trace_inv_def)
  next
    case True
    from fetch_page_trace_inv [OF Suc.prems, of ep] True Suc.IH show ?thesis
      by (auto split: sum.splits)
  qed
qed

lemma fetch_init_trace_inv: "trace_inv key since (fetch_init sv)"
  by (simp add: trace_inv_def fetch_init_def prior_cursor_def)

lemma has_param_request:
  "(has_param ''if_modified_since'' (request_params key cursor since) \<longleftrightarrow> since > 0) \<and>
   (has_param ''last_appid'' (request_params key cursor since) \<longleftrightarrow> cursor > 0)"
  by (simp add: has_param_def request_params_def)

lemma fetch_loop_failures:
  assumes "fetch_loop ep key since st = Some y"
  shows "(\<forall>x \<in> set (exchanges st). failure_of (snd x) = None) \<longrightarrow>
         (\<forall>x \<in> set (butlast (exchanges (snd y))). failure_of (snd x) = None) \<and>
         (case fst y of
            Inl e \<Rightarrow> exchanges (snd y) \<noteq> [] \<and>
                     failure_of (snd (last (exchanges (snd y)))) = Some e
          | Inr got \<Rightarrow> (\<forall>x \<in> set (exchanges (snd y)). failure_of (snd x) = None))"
proof (rule fetch_loop.raw_induct
    [where P = "\<lambda>ep key since st y.
       (\<forall>x \<in> set (exchanges st). failure_of (snd x) = None) \<longrightarrow>
         (\<forall>x \<in> set (butlast (exchanges (snd y))). failure_of (snd x) = None) \<and>
         (case fst y of
            Inl e \<Rightarrow> exchanges (snd y) \<noteq> [] \<and>
                     failure_of (snd (last (exchanges (snd y)))) = Some e
          | Inr got \<Rightarrow> (\<forall>x \<in> set (exchanges (snd y)). failure_of (snd x) = None))",
     OF _ assms], goal_cases)
  case (1 loop ep key since st y)
  show ?case
  proof (cases "hasMore st")
    case False
    with 1(2) have y: "y = (Inr (allApps st), st)" by simp
    have "set (butlast (exchanges st)) \<subseteq> set (exchanges st)"
      by (auto dest: in_set_butlastD)
    with y show ?thesis by auto
  next
    case True
    from fetch_page_exchanges [of ep st key since] obtain r sv where
      ex: "exchanges (case fetch_page ep key since st of Inl (e, st') \<Rightarrow> st' | Inr st' \<Rightarrow> st') =
         exchanges st @ [(request_params key (lastAppId st) since, r)]"
      and good: "\<forall>st'. fetch_page ep key since st = Inr st' \<longrightarrow> failure_of r = None"
      and bad: "\<forall>e st'. fetch_page ep key since st = Inl (e, st') \<longrightarrow> failure_of r = Some e"
      by blast
    show ?thesis
    proof (cases "fetch_page ep key since st")
      case (Inl a)
      obtain e st' where a: "a = (e, st')" by (cases a)
      with True Inl 1(2) have y: "y = (Inl e, st')" by simp
      from Inl a ex have "exchanges st' = exchanges st @ [(request_params key (lastAppId st) since, r)]"
        by simp
      moreover from Inl a bad have "failure_of r = Some e" by simp
      ultimately show ?thesis using y by simp
    next
      case (Inr st')
      with True 1(2) have call: "loop ep key since st' = Some y" by simp
      from Inr ex have "exchanges st' = exchanges st @ [(request_params key (lastAppId st) since, r)]"
        by simp
      moreover from Inr good have "failure_of r = None" by simp
      ultimately show ?thesis using 1(1) [OF call] by auto
    qed
  qed
qed

section \<open>Claims about fetchAllApps\<close>

text \<open>
  Claim C1: for every finite sequence of pages in which the endpoint reports that more
  pages remain on pages 1 to k and reports false, or omits the flag, on page k+1,
  \<open>fetchAllApps\<close> returns after requesting exactly k+1 pages, and it returns the records
  of the k+1 pages concatenated in the order received. Here \<open>pages\<close> are the k+1 pages,
  \<open>rest\<close> is whatever the endpoint would have answered afterwards (it is left untouched),
  and the watermark and the key are arbitrary.
\<close>

theorem fetch_all_pages:
  assumes "pages \<noteq> []"
    and "\<forall>p \<in> set (butlast pages). have_more_results p = Some True"
    and "have_more_results (last pages) \<noteq> Some True"
  shows "\<exists>st. fetchAllApps scripted key since (map page_reply pages @ rest) =
            Some (Inr (concat (map page_apps pages)), st) \<and>
          length (exchanges st) = length pages \<and>
          pageCount st = length pages \<and>
          map snd (exchanges st) = map page_reply pages \<and>
          server st = rest"
  using fetch_loop_pages [OF assms, of
      "\<lparr>allApps = [], lastAppId = 0, pageCount = 0, hasMore = True,
        server = map page_reply pages @ rest, exchanges = []\<rparr>" rest key since]
  by (auto simp: fetchAllApps_def fetch_init_def)

theorem fetch_all_pages_witness:
  "\<exists>st. fetchAllApps scripted ''KEY'' 0
          [page_reply \<lparr>apps = Some [\<lparr>appid = 10\<rparr>, \<lparr>appid = 20\<rparr>],
                        have_more_results = Some True, last_appid = Some 20\<rparr>,
           page_reply \<lparr>apps = Some [\<lparr>appid = 30\<rparr>],
                        have_more_results = None, last_appid = None\<rparr>] =
          Some (Inr [\<lparr>appid = 10\<rparr>, \<lparr>appid = 20\<rparr>, \<lparr>appid = 30\<rparr>], st) \<and>
        length (exchanges st) = 2"
  using fetch_all_pages [where pages =
      "[\<lparr>apps = Some [\<lparr>appid = 10\<rparr>, \<lparr>appid = 20\<rparr>],
          have_more_results = Some True, last_appid = Some 20\<rparr>,
        \<lparr>apps = Some [\<lparr>appid = 30\<rparr>], have_more_results = None, last_appid = None\<rparr>]"
      and rest = "[]" and key = "''KEY''" and since = 0]
  by (auto simp: page_apps_def)

text \<open>
  Claim C6, as stated: a request carries the watermark parameter exactly when the
  watermark is nonzero, and the cursor parameter exactly when the cursor of the prior
  response is nonzero. The program tests \<open>ifModifiedSince > 0\<close> and \<open>lastAppId > 0\<close>,
  so a negative value is nonzero and yet not sent: with watermark \<open>-1\<close> and a first page
  whose \<open>last_appid\<close> is \<open>-7\<close>, neither of the two requests carries
  \<open>if_modified_since\<close> and the second carries no \<open>last_appid\<close>.
\<close>

theorem nonpositive_values_not_sent_counterexample:
  "fetchAllApps scripted ''KEY'' (- 1)
     [page_reply \<lparr>apps = Some [\<lparr>appid = 1\<rparr>], have_more_results = Some True,
                   last_appid = Some (- 7)\<rparr>,
      page_reply \<lparr>apps = None, have_more_results = None, last_appid = None\<rparr>] =
   Some (Inr [\<lparr>appid = 1\<rparr>],
     \<lparr>allApps = [\<lparr>appid = 1\<rparr>], lastAppId = 0, pageCount = 2, hasMore = False, server = [],
      exchanges =
        [([(''key'', PStr ''KEY''), (''max_results'', PNum 50000), (''include_dlc'', PBool False),
           (''include_software'', PBool False), (''include_videos'', PBool False),
           (''include_hardware'', PBool False)],
          page_reply \<lparr>apps = Some [\<lparr>appid = 1\<rparr>], have_more_results = Some True,
                       last_appid = Some (- 7)\<rparr>),
         ([(''key'', PStr ''KEY''), (''max_results'', PNum 50000), (''include_dlc'', PBool False),
           (''include_software'', PBool False), (''include_videos'', PBool False),
           (''include_hardware'', PBool False)],
          page_reply \<lparr>apps = None, have_more_results = None, last_appid = None\<rparr>)]\<rparr>) \<and>
   reply_cursor (page_reply \<lparr>apps = Some [\<lparr>appid = 1\<rparr>], have_more_results = Some True,
                              last_appid = Some (- 7)\<rparr>) = - 7 \<and>
   \<not> has_param ''last_appid''
       [(''key'', PStr ''KEY''), (''max_results'', PNum 50000), (''include_dlc'', PBool False),
        (''include_software'', PBool False), (''include_videos'', PBool False),
        (''include_hardware'', PBool False)] \<and>
   \<not> has_param ''if_modified_since''
       [(''key'', PStr ''KEY''), (''max_results'', PNum 50000), (''include_dlc'', PBool False),
        (''include_software'', PBool False), (''include_videos'', PBool False),
        (''include_hardware'', PBool False)]"
  by (simp add: fetchAllApps_def fetch_init_def fetch_loop.simps fetch_page_def page_reply_def
      request_params_def reply_cursor_def has_param_def)

text \<open>
  Claim C6, amended: in \<open>fetchAllApps\<close>, every outgoing request includes the watermark
  parameter if and only if the watermark argument is greater than zero, and includes the
  cursor parameter if and only if the cursor taken from the prior response is greater than
  zero (for values that are not negative this is: nonzero); the first request of a run
  never carries a cursor. Here \<open>xs\<close> is the trace of a run that returned, or of the first
  \<open>n\<close> passes of any run, and \<open>i\<close> is the position of a request in it.
\<close>

theorem requests_carry_watermark_and_cursor:
  assumes "xs = exchanges (fetch_steps ep key since n (fetch_init sv)) \<or>
           (\<exists>res st. fetchAllApps ep key since sv = Some (res, st) \<and> xs = exchanges st)"
    and "i < length xs"
  shows "fst (xs ! i) = request_params key (prior_cursor xs i) since \<and>
         (has_param ''if_modified_since'' (fst (xs ! i)) \<longleftrightarrow> since > 0) \<and>
         (has_param ''last_appid'' (fst (xs ! i)) \<longleftrightarrow> prior_cursor xs i > 0) \<and>
         \<not> has_param ''last_appid'' (fst (xs ! 0))"
proof -
  from assms(1) obtain m where xs: "xs = exchanges (fetch_steps ep key since m (fetch_init sv))"
    using fetch_loop_is_steps [of ep key since "fetch_init sv"]
    by (fastforce simp: fetchAllApps_def)
  have all: "\<forall>j < length xs. request_ok key since xs j"
    unfolding xs by (rule fetch_steps_trace [OF fetch_init_trace_inv])
  with assms(2) have i: "fst (xs ! i) = request_params key (prior_cursor xs i) since"
    by (simp add: request_ok_def)
  from assms(2) have "0 < length xs" by (cases xs) simp_all
  with all have "fst (xs ! 0) = request_params key (prior_cursor xs 0) since"
    by (simp add: request_ok_def)
  then have z: "\<not> has_param ''last_appid'' (fst (xs ! 0))"
    by (simp add: has_param_request prior_cursor_def)
  from i z show ?thesis by (simp add: has_param_request)
qed

theorem requests_carry_watermark_and_cursor_witness:
  "(1::nat) < length (exchanges (fetch_steps scripted ''KEY'' 5 (Suc (Suc 0))
       (fetch_init
         [page_reply \<lparr>apps = Some [\<lparr>appid = 20\<rparr>], have_more_results = Some True,
                       last_appid = Some 20\<rparr>,
          page_reply \<lparr>apps = None, have_more_results = None, last_appid = None\<rparr>]))) \<and>
   has_param ''if_modified_since''
     (fst (exchanges (fetch_steps scripted ''KEY'' 5 (Suc (Suc 0))
       (fetch_init
         [page_reply \<lparr>apps = Some [\<lparr>appid = 20\<rparr>], have_more_results = Some True,
                       last_appid = Some 20\<rparr>,
          page_reply \<lparr>apps = None, have_more_results = None, last_appid = None\<rparr>])) ! 1)) \<and>
   has_param ''last_appid''
     (fst (exchanges (fetch_steps scripted ''KEY'' 5 (Suc (Suc 0))
       (fetch_init
         [page_reply \<lparr>apps = Some [\<lparr>appid = 20\<rparr>], have_more_results = Some True,
                       last_appid = Some 20\<rparr>,
          page_reply \<lparr>apps = None, have_more_results = None, last_appid = None\<rparr>])) ! 1)) \<and>
   \<not> has_param ''last_appid''
     (fst (exchanges (fetch_steps scripted ''KEY'' 5 (Suc (Suc 0))
       (fetch_init
         [page_reply \<lparr>apps = Some [\<lparr>appid = 20\<rparr>], have_more_results = Some True,
                       last_appid = Some 20\<rparr>,
          page_reply \<lparr>apps = None, have_more_results = None, last_appid = None\<rparr>])) ! 0))"
proof -
  let ?sv = "[page_reply \<lparr>apps = Some [\<lparr>appid = 20\<rparr>], have_more_results = Some True,
                           last_appid = Some 20\<rparr>,
              page_reply \<lparr>apps = None, have_more_results = None, last_appid = None\<rparr>]"
  let ?xs = "exchanges (fetch_steps scripted ''KEY'' 5 (Suc (Suc 0)) (fetch_init ?sv))"
  have xs: "?xs =
      [(request_params ''KEY'' 0 5,
        page_reply \<lparr>apps = Some [\<lparr>appid = 20\<rparr>], have_more_results = Some True,
                     last_appid = Some 20\<rparr>),
       (request_params ''KEY'' 20 5,
        page_reply \<lparr>apps = None, have_more_results = None, last_appid = None\<rparr>)]"
    by (simp add: fetch_init_def fetch_page_def page_reply_def)
  have len: "(1::nat) < length ?xs"
    unfolding xs by simp
  from requests_carry_watermark_and_cursor
         [where xs = ?xs and ep = scripted and key = "''KEY''" and since = 5
            and n = "Suc (Suc 0)" and sv = ?sv and i = 1, OF disjI1 [OF refl] len]
  show ?thesis
    unfolding xs by (simp add: prior_cursor_def reply_cursor_def page_reply_def)
qed

section \<open>Properties of loading and of a run\<close>

lemma replace_first_length:
  "\<exists>a b. s = a @ pat @ b \<Longrightarrow>
   length (replace_first pat rep s) + length pat = length s + length rep"
proof (induction s)
  case Nil
  then show ?case by auto
next
  case (Cons c cs)
  show ?case
  proof (cases "take (length pat) (c # cs) = pat")
    case True
    from arg_cong [OF True, of length] have "length pat \<le> length (c # cs)"
      by (simp add: min_def split: if_splits)
    with True show ?thesis by simp
  next
    case False
    from Cons.prems obtain a b where ab: "c # cs = a @ pat @ b" by blast
    with False have "a \<noteq> []" by auto
    with ab obtain a' where "cs = a' @ pat @ b" by (cases a) auto
    then have "\<exists>a b. cs = a @ pat @ b" by blast
    from Cons.IH [OF this] False show ?thesis by simp
  qed
qed

lemma show_nat_nonempty: "show_nat n \<noteq> []"
  by (subst show_nat.simps) simp

lemma backup_name_length:
  "length (backup_name root n) = length root + 19 + length (show_nat n)"
proof -
  have "\<exists>a b. GAMES_FILE root = a @ ''.json'' @ b"
    by (rule exI [of _ "root @ ''/games''"], rule exI [of _ "[]"]) (simp add: GAMES_FILE_def)
  from replace_first_length [OF this, of "''.backup.'' @ show_nat n @ ''.json''"]
  show ?thesis by (simp add: backup_name_def GAMES_FILE_def)
qed

lemma backup_name_fresh:
  "backup_name root n \<noteq> GAMES_FILE root \<and> backup_name root n \<noteq> METADATA_FILE root"
proof -
  have "length (backup_name root n) \<noteq> length (GAMES_FILE root)"
    "length (backup_name root n) \<noteq> length (METADATA_FILE root)"
    by (simp_all add: backup_name_length GAMES_FILE_def METADATA_FILE_def)
  then show ?thesis by auto
qed

lemma paths_differ: "GAMES_FILE root \<noteq> METADATA_FILE root"
  by (simp add: GAMES_FILE_def METADATA_FILE_def)

lemma date_now_frame:
  "files (snd (date_now w)) = files w \<and> fs_log (snd (date_now w)) = fs_log w \<and>
   dirs (snd (date_now w)) = dirs w \<and>
   remote (snd (date_now w)) = remote w \<and> clock (snd (date_now w)) = clock w \<and>
   clock_reads (snd (date_now w)) = Suc (clock_reads w) \<and>
   fst (date_now w) = clock w (clock_reads w)"
  by (simp add: date_now_def)

lemma copy_to_backup_frame:
  assumes "copyFileSync src (backup_name root n) w = Inr w'"
    and "p = GAMES_FILE root \<or> p = METADATA_FILE root"
  shows "files w' p = files w p \<and>
         filter (writes_to p) (fs_log w') = filter (writes_to p) (fs_log w) \<and>
         remote w' = remote w"
  using assms backup_name_fresh [of root n]
  by (auto simp: copyFileSync_def split: option.splits if_splits)

lemma loadGamesData_frame:
  assumes "p = GAMES_FILE root \<or> p = METADATA_FILE root"
  shows "files (world_after (loadGamesData lib root w)) p = files w p \<and>
         filter (writes_to p) (fs_log (world_after (loadGamesData lib root w))) =
           filter (writes_to p) (fs_log w) \<and>
         remote (world_after (loadGamesData lib root w)) = remote w"
proof (cases "copyFileSync (GAMES_FILE root) (backup_name root (clock w (clock_reads w)))
                (snd (date_now w))")
  case (Inl e)
  then show ?thesis
    by (simp add: loadGamesData_def Let_def split_beta date_now_frame
        split: option.splits parsed.splits)
next
  case (Inr w')
  from copy_to_backup_frame [OF Inr assms] Inr show ?thesis
    by (simp add: loadGamesData_def Let_def split_beta date_now_frame
        split: option.splits parsed.splits)
qed

lemma loadGamesData_keeps:
  "files (world_after (loadGamesData lib root w)) (GAMES_FILE root) = files w (GAMES_FILE root)"
  "files (world_after (loadGamesData lib root w)) (METADATA_FILE root) =
     files w (METADATA_FILE root)"
  "filter (writes_to (GAMES_FILE root)) (fs_log (world_after (loadGamesData lib root w))) =
     filter (writes_to (GAMES_FILE root)) (fs_log w)"
  "filter (writes_to (METADATA_FILE root)) (fs_log (world_after (loadGamesData lib root w))) =
     filter (writes_to (METADATA_FILE root)) (fs_log w)"
  "remote (world_after (loadGamesData lib root w)) = remote w"
  using loadGamesData_frame [of "GAMES_FILE root" root lib w]
    loadGamesData_frame [of "METADATA_FILE root" root lib w]
  by simp_all

lemma loadMetadata_cong:
  "files w' (METADATA_FILE root) = files w (METADATA_FILE root) \<Longrightarrow>
   loadMetadata lib root w' = loadMetadata lib root w"
  by (simp add: loadMetadata_def)

lemma loadMetadata_after_load:
  "loadMetadata lib root (world_after (loadGamesData lib root (snd (date_now w)))) =
   loadMetadata lib root w"
  by (rule loadMetadata_cong) (simp add: loadGamesData_keeps date_now_frame)

lemma remote_after_load:
  "remote (world_after (loadGamesData lib root (snd (date_now w)))) = remote w"
  by (simp add: loadGamesData_keeps date_now_frame)

lemma run_unfold:
  "updateGamesDatabase lib root ep key w =
     (case loadGamesData lib root (snd (date_now w)) of
        Inl (e, w2) \<Rightarrow> Some (Failed e w2)
      | Inr (games, w2) \<Rightarrow>
          (case loadMetadata lib root w of
             Inl e \<Rightarrow> Some (Failed e w2)
           | Inr m \<Rightarrow>
               (case fetchAllApps ep key (lastFetchTimestamp m) (remote w) of
                  None \<Rightarrow> None
                | Some (Inl e, st) \<Rightarrow> Some (Failed e (w2\<lparr>remote := server st\<rparr>))
                | Some (Inr newApps, st) \<Rightarrow>
                    Some (finish_update lib root games m newApps
                            (w2\<lparr>remote := server st\<rparr>)))))"
proof (cases "loadGamesData lib root (snd (date_now w))")
  case (Inl a)
  then show ?thesis
    by (cases a) (simp add: updateGamesDatabase_def Let_def split_beta)
next
  case (Inr b)
  obtain games w2 where b: "b = (games, w2)" by (cases b)
  from Inr b have w2: "world_after (loadGamesData lib root (snd (date_now w))) = w2" by simp
  from loadMetadata_after_load [of lib root w] remote_after_load [of lib root w] w2
  have "loadMetadata lib root w2 = loadMetadata lib root w" "remote w2 = remote w"
    by simp_all
  with Inr b show ?thesis
    by (cases "loadMetadata lib root w")
       (simp_all add: updateGamesDatabase_def Let_def split_beta)
qed

lemma corrupt_catalog_backed_up_when_directory_exists:
  assumes "files w (GAMES_FILE root) = Some rawData"
    and "trim lib (strip_bom rawData) \<noteq> []"
    and "JSON_parse_games lib (strip_bom rawData) = None"
    and "parent_dir (backup_name root (clock w (clock_reads w))) \<in> dirs w"
  shows "\<exists>w'. loadGamesData lib root w = Inr ([], w') \<and>
          files w' (backup_name root (clock w (clock_reads w))) = Some rawData \<and>
          files w' (GAMES_FILE root) = Some rawData"
  using assms backup_name_fresh [of root "clock w (clock_reads w)"]
  by (simp add: loadGamesData_def Let_def split_beta date_now_frame copyFileSync_def)

lemma backup_beside_original:
  "backup_name ''/srv/app'' 1730000000001 = ''/srv/app/games.backup.1730000000001.json'' \<and>
   parent_dir (backup_name ''/srv/app'' 1730000000001) = ''/srv/app''"
  by (simp add: backup_name_def GAMES_FILE_def parent_dir_def show_nat.simps digit_def)

section \<open>Claims about a run\<close>

text \<open>
  Claim C7: whenever the fetch returns zero records, the run writes neither the catalog
  file nor the metadata file: both files are as before the run, the log of the file system
  gains no operation that puts content at either path, and the catalog and the metadata
  held in memory are the ones loaded. The hypotheses say that the metadata file loads and
  that \<open>fetchAllApps\<close>, called with its watermark, returns the empty list. The fetch is
  reached when \<open>loadGamesData\<close> returned, and the run then completes with the catalog it
  returned; had it thrown, the run would have ended there, with both files untouched as
  well.
\<close>

theorem empty_fetch_writes_nothing:
  assumes "loadMetadata lib root w = Inr m"
    and "fetchAllApps ep key (lastFetchTimestamp m) (remote w) = Some (Inr [], st)"
  shows "\<exists>out. updateGamesDatabase lib root ep key w = Some out \<and>
          files (final_world out) (GAMES_FILE root) = files w (GAMES_FILE root) \<and>
          files (final_world out) (METADATA_FILE root) = files w (METADATA_FILE root) \<and>
          filter (writes_to (GAMES_FILE root)) (fs_log (final_world out)) =
            filter (writes_to (GAMES_FILE root)) (fs_log w) \<and>
          filter (writes_to (METADATA_FILE root)) (fs_log (final_world out)) =
            filter (writes_to (METADATA_FILE root)) (fs_log w) \<and>
          (case loadGamesData lib root (snd (date_now w)) of
             Inl (e, w1) \<Rightarrow> out = Failed e w1
           | Inr (games, w1) \<Rightarrow> (\<exists>w'. out = Completed games m w'))"
proof (cases "loadGamesData lib root (snd (date_now w))")
  case (Inl a)
  obtain e w1 where a: "a = (e, w1)" by (cases a)
  from Inl a have w1: "world_after (loadGamesData lib root (snd (date_now w))) = w1" by simp
  from Inl a have run: "updateGamesDatabase lib root ep key w = Some (Failed e w1)"
    by (simp add: run_unfold)
  from loadGamesData_keeps [where lib = lib and root = root and w = "snd (date_now w)"] w1
  have "files w1 (GAMES_FILE root) = files w (GAMES_FILE root)"
    "files w1 (METADATA_FILE root) = files w (METADATA_FILE root)"
    "filter (writes_to (GAMES_FILE root)) (fs_log w1) =
       filter (writes_to (GAMES_FILE root)) (fs_log w)"
    "filter (writes_to (METADATA_FILE root)) (fs_log w1) =
       filter (writes_to (METADATA_FILE root)) (fs_log w)"
    by (simp_all add: date_now_frame)
  with run Inl a show ?thesis by simp
next
  case (Inr b)
  obtain games w1 where b: "b = (games, w1)" by (cases b)
  from Inr b have w1: "world_after (loadGamesData lib root (snd (date_now w))) = w1" by simp
  let ?w2 = "w1\<lparr>remote := server st\<rparr>"
  from Inr b assms have run: "updateGamesDatabase lib root ep key w =
      Some (Completed games m (snd (date_now ?w2)))"
    by (simp add: run_unfold finish_update_def split_beta)
  from loadGamesData_keeps [where lib = lib and root = root and w = "snd (date_now w)"] w1
  have "files (snd (date_now ?w2)) (GAMES_FILE root) = files w (GAMES_FILE root)"
    "files (snd (date_now ?w2)) (METADATA_FILE root) = files w (METADATA_FILE root)"
    "filter (writes_to (GAMES_FILE root)) (fs_log (snd (date_now ?w2))) =
       filter (writes_to (GAMES_FILE root)) (fs_log w)"
    "filter (writes_to (METADATA_FILE root)) (fs_log (snd (date_now ?w2))) =
       filter (writes_to (METADATA_FILE root)) (fs_log w)"
    by (simp_all add: date_now_frame)
  with run Inr b show ?thesis by simp
qed

theorem empty_fetch_writes_nothing_witness:
  "\<exists>w'. updateGamesDatabase sample_lib ''/srv/app'' scripted ''KEY''
           (sample_world ''/srv/app'' (Some ''[5, 10]'')
              [page_reply \<lparr>apps = Some [], have_more_results = Some False, last_appid = None\<rparr>]) =
          Some (Completed [5, 10]
                 \<lparr>lastFetchTimestamp = 0, lastUpdateDate = None, totalGames = 0,
                  lastRunStats = None\<rparr> w') \<and>
        files w' (GAMES_FILE ''/srv/app'') = Some ''[5, 10]'' \<and>
        files w' (METADATA_FILE ''/srv/app'') = None \<and>
        filter (writes_to (GAMES_FILE ''/srv/app'')) (fs_log w') = [] \<and>
        filter (writes_to (METADATA_FILE ''/srv/app'')) (fs_log w') = []"
proof -
  let ?script = "[page_reply \<lparr>apps = Some [], have_more_results = Some False, last_appid = None\<rparr>]"
  let ?w = "sample_world ''/srv/app'' (Some ''[5, 10]'') ?script"
  let ?m = "\<lparr>lastFetchTimestamp = 0, lastUpdateDate = None, totalGames = 0, lastRunStats = None\<rparr>"
  have meta: "loadMetadata sample_lib ''/srv/app'' ?w = Inr ?m"
    by (simp add: loadMetadata_def sample_world_def GAMES_FILE_def METADATA_FILE_def)
  have "\<exists>st. fetchAllApps scripted ''KEY'' (lastFetchTimestamp ?m) (remote ?w) = Some (Inr [], st)"
    by (simp add: sample_world_def fetchAllApps_def fetch_init_def fetch_loop.simps
        fetch_page_def page_reply_def)
  then obtain st where
    fetch: "fetchAllApps scripted ''KEY'' (lastFetchTimestamp ?m) (remote ?w) = Some (Inr [], st)"
    by blast
  have games: "loadGamesData sample_lib ''/srv/app'' (snd (date_now ?w)) =
      Inr ([5, 10], snd (date_now ?w))"
    by (simp add: loadGamesData_def date_now_def sample_world_def sample_lib_def
        strip_bom_def BOM_def sample_trim_def)
  have files: "files ?w (GAMES_FILE ''/srv/app'') = Some ''[5, 10]''"
    "files ?w (METADATA_FILE ''/srv/app'') = None" "fs_log ?w = []"
    by (simp_all add: sample_world_def GAMES_FILE_def METADATA_FILE_def)
  from empty_fetch_writes_nothing [OF meta fetch] obtain out where
    "updateGamesDatabase sample_lib ''/srv/app'' scripted ''KEY'' ?w = Some out"
    "files (final_world out) (GAMES_FILE ''/srv/app'') = files ?w (GAMES_FILE ''/srv/app'')"
    "files (final_world out) (METADATA_FILE ''/srv/app'') = files ?w (METADATA_FILE ''/srv/app'')"
    "filter (writes_to (GAMES_FILE ''/srv/app'')) (fs_log (final_world out)) =
       filter (writes_to (GAMES_FILE ''/srv/app'')) (fs_log ?w)"
    "filter (writes_to (METADATA_FILE ''/srv/app'')) (fs_log (final_world out)) =
       filter (writes_to (METADATA_FILE ''/srv/app'')) (fs_log ?w)"
    "\<exists>w'. out = Completed [5, 10] ?m w'"
    unfolding games by auto
  then show ?thesis by (auto simp: files)
qed

text \<open>
  Claim C8: if a page request fails (transport error, non-success status, or a body that
  is not JSON or lacks the \<open>response\<close> object), \<open>fetchAllApps\<close> aborts the whole fetch and
  hands the error to its caller without retrying, and the run writes neither the catalog
  nor the metadata, so both files are unchanged on any fetch error. The three parts of the
  statement: from any state of the loop, a failing reply makes the loop return that error
  with exactly this one request added to the trace; in the trace of a fetch that returned
  an error, the failing request is the last one and no earlier request failed; and a run
  whose fetch returned an error ends with exit code 1 and both files untouched, its error
  being the one of the fetch (the fetch is reached when \<open>loadGamesData\<close> returned).
\<close>

theorem fetch_error_aborts_run:
  "(hasMore st \<and> ep (server st) (request_params key (lastAppId st) since) = (r, sv) \<and>
    failure_of r = Some e \<longrightarrow>
      fetch_loop ep key since st =
        Some (Inl e, st\<lparr>pageCount := pageCount st + 1, server := sv,
                        exchanges := exchanges st @
                          [(request_params key (lastAppId st) since, r)]\<rparr>)) \<and>
   (fetchAllApps ep key since sv0 = Some (Inl e1, st1) \<longrightarrow>
      exchanges st1 \<noteq> [] \<and> failure_of (snd (last (exchanges st1))) = Some e1 \<and>
      (\<forall>x \<in> set (butlast (exchanges st1)). failure_of (snd x) = None)) \<and>
   (loadMetadata lib root w = Inr m \<and>
    fetchAllApps ep key (lastFetchTimestamp m) (remote w) = Some (Inl e2, st2) \<longrightarrow>
      (\<exists>out. updateGamesDatabase lib root ep key w = Some out \<and>
         exit_code out = 1 \<and>
         files (final_world out) (GAMES_FILE root) = files w (GAMES_FILE root) \<and>
         files (final_world out) (METADATA_FILE root) = files w (METADATA_FILE root) \<and>
         filter (writes_to (GAMES_FILE root)) (fs_log (final_world out)) =
           filter (writes_to (GAMES_FILE root)) (fs_log w) \<and>
         filter (writes_to (METADATA_FILE root)) (fs_log (final_world out)) =
           filter (writes_to (METADATA_FILE root)) (fs_log w) \<and>
         (case loadGamesData lib root (snd (date_now w)) of
            Inl (e', w1) \<Rightarrow> out = Failed e' w1
          | Inr (games, w1) \<Rightarrow> (\<exists>w'. out = Failed e2 w'))))"
proof (intro conjI impI)
  assume "hasMore st \<and> ep (server st) (request_params key (lastAppId st) since) = (r, sv) \<and>
    failure_of r = Some e"
  then show "fetch_loop ep key since st =
        Some (Inl e, st\<lparr>pageCount := pageCount st + 1, server := sv,
                        exchanges := exchanges st @
                          [(request_params key (lastAppId st) since, r)]\<rparr>)"
    using fetch_loop_fail [of st ep key since] fetch_page_failure [of ep st key since r sv e]
    by simp
next
  assume a: "fetchAllApps ep key since sv0 = Some (Inl e1, st1)"
  from fetch_loop_failures [of ep key since "fetch_init sv0" "(Inl e1, st1)"] a
  have b: "(\<forall>x \<in> set (butlast (exchanges st1)). failure_of (snd x) = None) \<and>
      exchanges st1 \<noteq> [] \<and> failure_of (snd (last (exchanges st1))) = Some e1"
    by (simp add: fetchAllApps_def fetch_init_def)
  from b show "exchanges st1 \<noteq> []" by simp
  from b show "failure_of (snd (last (exchanges st1))) = Some e1" by simp
  from b show "\<forall>x \<in> set (butlast (exchanges st1)). failure_of (snd x) = None" by simp
next
  assume h: "loadMetadata lib root w = Inr m \<and>
    fetchAllApps ep key (lastFetchTimestamp m) (remote w) = Some (Inl e2, st2)"
  let ?goal = "\<exists>out. updateGamesDatabase lib root ep key w = Some out \<and>
         exit_code out = 1 \<and>
         files (final_world out) (GAMES_FILE root) = files w (GAMES_FILE root) \<and>
         files (final_world out) (METADATA_FILE root) = files w (METADATA_FILE root) \<and>
         filter (writes_to (GAMES_FILE root)) (fs_log (final_world out)) =
           filter (writes_to (GAMES_FILE root)) (fs_log w) \<and>
         filter (writes_to (METADATA_FILE root)) (fs_log (final_world out)) =
           filter (writes_to (METADATA_FILE root)) (fs_log w) \<and>
         (case loadGamesData lib root (snd (date_now w)) of
            Inl (e', w1) \<Rightarrow> out = Failed e' w1
          | Inr (games, w1) \<Rightarrow> (\<exists>w'. out = Failed e2 w'))"
  note keeps = loadGamesData_keeps [where lib = lib and root = root and w = "snd (date_now w)"]
  show ?goal
  proof (cases "loadGamesData lib root (snd (date_now w))")
    case (Inl a)
    obtain e' w1 where a: "a = (e', w1)" by (cases a)
    from Inl a have w1: "world_after (loadGamesData lib root (snd (date_now w))) = w1" by simp
    from Inl a have run: "updateGamesDatabase lib root ep key w = Some (Failed e' w1)"
      by (simp add: run_unfold)
    from keeps w1
    have "files w1 (GAMES_FILE root) = files w (GAMES_FILE root)"
      "files w1 (METADATA_FILE root) = files w (METADATA_FILE root)"
      "filter (writes_to (GAMES_FILE root)) (fs_log w1) =
         filter (writes_to (GAMES_FILE root)) (fs_log w)"
      "filter (writes_to (METADATA_FILE root)) (fs_log w1) =
         filter (writes_to (METADATA_FILE root)) (fs_log w)"
      by (simp_all add: date_now_frame)
    with run Inl a show ?thesis by simp
  next
    case (Inr b)
    obtain games w1 where b: "b = (games, w1)" by (cases b)
    from Inr b have w1: "world_after (loadGamesData lib root (snd (date_now w))) = w1" by simp
    from Inr b h have run: "updateGamesDatabase lib root ep key w =
        Some (Failed e2 (w1\<lparr>remote := server st2\<rparr>))"
      by (simp add: run_unfold)
    from keeps w1
    have "files (w1\<lparr>remote := server st2\<rparr>) (GAMES_FILE root) = files w (GAMES_FILE root)"
      "files (w1\<lparr>remote := server st2\<rparr>) (METADATA_FILE root) = files w (METADATA_FILE root)"
      "filter (writes_to (GAMES_FILE root)) (fs_log (w1\<lparr>remote := server st2\<rparr>)) =
         filter (writes_to (GAMES_FILE root)) (fs_log w)"
      "filter (writes_to (METADATA_FILE root)) (fs_log (w1\<lparr>remote := server st2\<rparr>)) =
         filter (writes_to (METADATA_FILE root)) (fs_log w)"
      by (simp_all add: date_now_frame)
    with run Inr b show ?thesis by simp
  qed
qed

theorem fetch_error_aborts_run_witness:
  "fetch_loop scripted ''KEY'' 0 (fetch_init [Response False 503 Unparsable]) =
     Some (Inl (HttpError 503),
           (fetch_init [Response False 503 Unparsable])
             \<lparr>pageCount := 1, server := [],
              exchanges := [(request_params ''KEY'' 0 0, Response False 503 Unparsable)]\<rparr>) \<and>
   (\<exists>st1. fetchAllApps scripted ''KEY'' 0
            [page_reply \<lparr>apps = Some [\<lparr>appid = 3\<rparr>], have_more_results = Some True,
                          last_appid = Some 3\<rparr>,
             NetworkFailure,
             page_reply \<lparr>apps = Some [\<lparr>appid = 4\<rparr>], have_more_results = None,
                          last_appid = None\<rparr>] = Some (Inl NetworkError, st1) \<and>
          length (exchanges st1) = 2 \<and>
          length (server st1) = 1 \<and>
          failure_of (snd (last (exchanges st1))) = Some NetworkError) \<and>
   (\<exists>w'. updateGamesDatabase sample_lib ''/srv/app'' scripted ''KEY''
           (sample_world ''/srv/app'' (Some ''[5, 10]'') [Response False 503 Unparsable]) =
          Some (Failed (HttpError 503) w') \<and>
        files w' (GAMES_FILE ''/srv/app'') = Some ''[5, 10]'' \<and>
        files w' (METADATA_FILE ''/srv/app'') = None \<and>
        filter (writes_to (GAMES_FILE ''/srv/app'')) (fs_log w') = [] \<and>
        filter (writes_to (METADATA_FILE ''/srv/app'')) (fs_log w') = [])"
proof -
  let ?bad = "Response False 503 Unparsable"
  let ?script = "[page_reply \<lparr>apps = Some [\<lparr>appid = 3\<rparr>], have_more_results = Some True,
                               last_appid = Some 3\<rparr>,
                  NetworkFailure,
                  page_reply \<lparr>apps = Some [\<lparr>appid = 4\<rparr>], have_more_results = None,
                               last_appid = None\<rparr>]"
  let ?w = "sample_world ''/srv/app'' (Some ''[5, 10]'') [?bad]"
  let ?m = "\<lparr>lastFetchTimestamp = 0, lastUpdateDate = None, totalGames = 0, lastRunStats = None\<rparr>"
  have h1: "hasMore (fetch_init [?bad]) \<and>
      scripted (server (fetch_init [?bad]))
        (request_params ''KEY'' (lastAppId (fetch_init [?bad])) 0) = (?bad, []) \<and>
      failure_of ?bad = Some (HttpError 503)"
    by (simp add: fetch_init_def)
  have "\<exists>st1. fetchAllApps scripted ''KEY'' 0 ?script = Some (Inl NetworkError, st1) \<and>
          length (exchanges st1) = 2 \<and> length (server st1) = 1"
    by (simp add: fetchAllApps_def fetch_init_def fetch_loop.simps fetch_page_def page_reply_def)
  then obtain st1 where
    h2: "fetchAllApps scripted ''KEY'' 0 ?script = Some (Inl NetworkError, st1)"
    and len: "length (exchanges st1) = 2" "length (server st1) = 1"
    by blast
  have meta: "loadMetadata sample_lib ''/srv/app'' ?w = Inr ?m"
    by (simp add: loadMetadata_def sample_world_def GAMES_FILE_def METADATA_FILE_def)
  have "\<exists>st2. fetchAllApps scripted ''KEY'' (lastFetchTimestamp ?m) (remote ?w) =
          Some (Inl (HttpError 503), st2)"
    by (simp add: sample_world_def fetchAllApps_def fetch_init_def fetch_loop.simps fetch_page_def)
  then obtain st2 where
    h3: "fetchAllApps scripted ''KEY'' (lastFetchTimestamp ?m) (remote ?w) =
          Some (Inl (HttpError 503), st2)"
    by blast
  have games: "loadGamesData sample_lib ''/srv/app'' (snd (date_now ?w)) =
      Inr ([5, 10], snd (date_now ?w))"
    by (simp add: loadGamesData_def date_now_def sample_world_def sample_lib_def
        strip_bom_def BOM_def sample_trim_def)
  have files: "files ?w (GAMES_FILE ''/srv/app'') = Some ''[5, 10]''"
    "files ?w (METADATA_FILE ''/srv/app'') = None" "fs_log ?w = []"
    by (simp_all add: sample_world_def GAMES_FILE_def METADATA_FILE_def)
  note inst = fetch_error_aborts_run
    [where st = "fetch_init [?bad]" and ep = scripted and key = "''KEY''" and since = 0
       and r = ?bad and sv = "[]" and e = "HttpError 503"
       and ?sv0.0 = ?script and ?e1.0 = NetworkError and ?st1.0 = st1
       and lib = sample_lib and root = "''/srv/app''" and w = ?w and m = ?m
       and ?e2.0 = "HttpError 503" and ?st2.0 = st2]
  from inst h1 have p1: "fetch_loop scripted ''KEY'' 0 (fetch_init [?bad]) =
     Some (Inl (HttpError 503),
           (fetch_init [?bad])
             \<lparr>pageCount := 1, server := [],
              exchanges := [(request_params ''KEY'' 0 0, ?bad)]\<rparr>)"
    by (simp add: fetch_init_def)
  from inst h2 have p2: "failure_of (snd (last (exchanges st1))) = Some NetworkError"
    by blast
  from inst meta h3 obtain out where
    "updateGamesDatabase sample_lib ''/srv/app'' scripted ''KEY'' ?w = Some out"
    "files (final_world out) (GAMES_FILE ''/srv/app'') = files ?w (GAMES_FILE ''/srv/app'')"
    "files (final_world out) (METADATA_FILE ''/srv/app'') = files ?w (METADATA_FILE ''/srv/app'')"
    "filter (writes_to (GAMES_FILE ''/srv/app'')) (fs_log (final_world out)) =
       filter (writes_to (GAMES_FILE ''/srv/app'')) (fs_log ?w)"
    "filter (writes_to (METADATA_FILE ''/srv/app'')) (fs_log (final_world out)) =
       filter (writes_to (METADATA_FILE ''/srv/app'')) (fs_log ?w)"
    "\<exists>w'. out = Failed (HttpError 503) w'"
    unfolding games by auto
  then have p3: "\<exists>w'. updateGamesDatabase sample_lib ''/srv/app'' scripted ''KEY'' ?w =
          Some (Failed (HttpError 503) w') \<and>
        files w' (GAMES_FILE ''/srv/app'') = Some ''[5, 10]'' \<and>
        files w' (METADATA_FILE ''/srv/app'') = None \<and>
        filter (writes_to (GAMES_FILE ''/srv/app'')) (fs_log w') = [] \<and>
        filter (writes_to (METADATA_FILE ''/srv/app'')) (fs_log w') = []"
    by (auto simp: files)
  from p1 h2 len p2 p3 show ?thesis by blast
qed

text \<open>
  Claim C9: for every catalog file whose content is malformed, loading the catalog makes
  a backup copy of the bad file under a timestamped name and goes on with an empty catalog,
  and the run continues. The program means to do so, but it builds the name of the backup
  by replacing the first \<open>.json\<close> of the whole path of the catalog. When the directory
  holds \<open>.json\<close> in its own path, the name points into a directory that does not exist:
  the copy throws inside the \<open>catch\<close> block of \<open>loadGamesData\<close>, the exception reaches
  the \<open>catch\<close> of \<open>updateGamesDatabase\<close>, and the run exits with code 1, with no backup
  and without loading the metadata or fetching. The statement evaluates the run for the
  directory \<open>/srv/steam.json-db\<close> and the unparsable catalog \<open>not json\<close>.
\<close>

theorem backup_misdirected_aborts_run:
  "backup_name ''/srv/steam.json-db'' 1730000000001 =
     ''/srv/steam.backup.1730000000001.json-db/games.json'' \<and>
   updateGamesDatabase sample_lib ''/srv/steam.json-db'' scripted ''KEY''
     (sample_world ''/srv/steam.json-db'' (Some ''not json'')
        [page_reply \<lparr>apps = Some [\<lparr>appid = 7\<rparr>], have_more_results = None,
                      last_appid = None\<rparr>]) =
     Some (Failed ENOENT
       ((sample_world ''/srv/steam.json-db'' (Some ''not json'')
          [page_reply \<lparr>apps = Some [\<lparr>appid = 7\<rparr>], have_more_results = None,
                        last_appid = None\<rparr>])\<lparr>clock_reads := 2\<rparr>)) \<and>
   exit_code (Failed ENOENT
       ((sample_world ''/srv/steam.json-db'' (Some ''not json'')
          [page_reply \<lparr>apps = Some [\<lparr>appid = 7\<rparr>], have_more_results = None,
                        last_appid = None\<rparr>])\<lparr>clock_reads := 2\<rparr>)) = 1 \<and>
   parent_dir ''/srv/steam.backup.1730000000001.json-db/games.json'' =
     ''/srv/steam.backup.1730000000001.json-db'' \<and>
   dirs ((sample_world ''/srv/steam.json-db'' (Some ''not json'')
          [page_reply \<lparr>apps = Some [\<lparr>appid = 7\<rparr>], have_more_results = None,
                        last_appid = None\<rparr>])\<lparr>clock_reads := 2\<rparr>) = {''/srv/steam.json-db''} \<and>
   files ((sample_world ''/srv/steam.json-db'' (Some ''not json'')
          [page_reply \<lparr>apps = Some [\<lparr>appid = 7\<rparr>], have_more_results = None,
                        last_appid = None\<rparr>])\<lparr>clock_reads := 2\<rparr>)
     ''/srv/steam.backup.1730000000001.json-db/games.json'' = None \<and>
   fs_log ((sample_world ''/srv/steam.json-db'' (Some ''not json'')
          [page_reply \<lparr>apps = Some [\<lparr>appid = 7\<rparr>], have_more_results = None,
                        last_appid = None\<rparr>])\<lparr>clock_reads := 2\<rparr>) = []"
proof -
  have n: "show_nat 1730000000001 = ''1730000000001''"
    by (simp add: show_nat.simps digit_def)
  have b: "backup_name ''/srv/steam.json-db'' 1730000000001 =
     ''/srv/steam.backup.1730000000001.json-db/games.json''"
    by (simp add: backup_name_def GAMES_FILE_def n)
  have d: "parent_dir ''/srv/steam.backup.1730000000001.json-db/games.json'' =
     ''/srv/steam.backup.1730000000001.json-db''"
    by (simp add: parent_dir_def)
  show ?thesis
    by (simp add: b d updateGamesDatabase_def loadGamesData_def copyFileSync_def date_now_def
        sample_world_def sample_lib_def sample_trim_def strip_bom_def BOM_def GAMES_FILE_def
        numeral_2_eq_2)
qed

end
